theory Spec2Isabelle
  imports Main
begin

section \<open>Strings, tokens and exceptions\<close>

text \<open>
  A Python \<open>str\<close> is a sequence of code points. The model represents the strings whose
  code points are below 256 as \<^typ>\<open>string\<close>, one \<^typ>\<open>char\<close> per code point.
  A token of the lexer is a \<open>str\<close> or \<open>None\<close>, hence a \<^typ>\<open>string option\<close>.
  Every exception the program can raise is a constructor of \<open>error\<close>; a method that may
  raise returns \<open>error + result\<close>, and a method that mutates its object returns the new
  object together with its result.
\<close>

datatype error =
    LexicalError string
  | SyntaxError string
  | AttributeError
  | ValueError
  | AssertionError
  | IndexError

text \<open>
  \<open>str.isdigit()\<close>: true when the string is not empty and every character is a digit.
  Among the code points below 256 the digits of \<open>isdigit\<close> are the ten decimal digits
  and the superscript digits U+00B2, U+00B3 and U+00B9.
\<close>

definition char_isdigit :: "char \<Rightarrow> bool" where
  "char_isdigit c = (c \<in> set (''0123456789'' @ [CHR 0xB2, CHR 0xB3, CHR 0xB9]))"

definition isdigit :: "string \<Rightarrow> bool" where
  "isdigit s = (s \<noteq> [] \<and> list_all char_isdigit s)"

text \<open>
  \<open>int(s)\<close> on a string that passed \<open>isdigit\<close> (an \<open>Integer\<close> node holds no other
  string): the decimal value when every character is one of \<open>0\<close> to \<open>9\<close> and the
  string is no longer than the interpreter's limit for the conversion, and
  \<open>ValueError\<close> on a superscript digit or on a longer string. The limit counts every
  digit of the string, leading zeros too; \<open>int_max_str_digits\<close> is its default, which the
  program never changes. Python's integers are unbounded, hence \<^typ>\<open>int\<close>.
\<close>

definition is_decimal :: "char \<Rightarrow> bool" where
  "is_decimal c = (c \<in> set ''0123456789'')"

definition digit_value :: "char \<Rightarrow> int" where
  "digit_value c = of_char c - 48"

definition int_max_str_digits :: nat where
  "int_max_str_digits = 4300"

definition py_int :: "string \<Rightarrow> error + int" where
  "py_int s =
     (if s \<noteq> [] \<and> list_all is_decimal s \<and> length s \<le> int_max_str_digits
      then Inr (foldl (\<lambda>a c. 10 * a + digit_value c) 0 s)
      else Inl ValueError)"

text \<open>The text an f-string puts in for a token: the string itself, or \<open>None\<close>.\<close>

definition format_token :: "string option \<Rightarrow> string" where
  "format_token t = (case t of None \<Rightarrow> ''None'' | Some s \<Rightarrow> s)"

section \<open>Lexer\<close>

record Lexer =
  source :: string
  index :: nat

definition ALLOWED_SYMBOLS :: "string list" where
  "ALLOWED_SYMBOLS = [''<'', ''>'', ''='', ''+'', ''-'', ''*'', ''('', '')'']"

definition Lexer_init :: "string \<Rightarrow> Lexer" where
  "Lexer_init src = \<lparr>source = src, index = 0\<rparr>"

text \<open>\<open>self.source[self.index]\<close>; the index is never negative.\<close>

definition current_char :: "Lexer \<Rightarrow> error + char" where
  "current_char lx =
     (if index lx < length (source lx) then Inr (source lx ! index lx) else Inl IndexError)"

definition is_digit :: "Lexer \<Rightarrow> error + bool" where
  "is_digit lx = (case current_char lx of Inl e \<Rightarrow> Inl e | Inr c \<Rightarrow> Inr (isdigit [c]))"

definition is_symbol :: "Lexer \<Rightarrow> error + bool" where
  "is_symbol lx =
     (case current_char lx of Inl e \<Rightarrow> Inl e | Inr c \<Rightarrow> Inr ([c] \<in> set ALLOWED_SYMBOLS))"

text \<open>The loop of \<open>next_number\<close>, with the local \<open>number\<close> as an accumulator.\<close>

function next_number_loop :: "string \<Rightarrow> Lexer \<Rightarrow> error + (string \<times> Lexer)" where
  "next_number_loop number lx =
     (if index lx < length (source lx) then
        (case is_digit lx of
           Inl e \<Rightarrow> Inl e
         | Inr True \<Rightarrow>
             (case current_char lx of
                Inl e \<Rightarrow> Inl e
              | Inr c \<Rightarrow> next_number_loop (number @ [c]) (lx\<lparr>index := index lx + 1\<rparr>))
         | Inr False \<Rightarrow> Inr (number, lx))
      else Inr (number, lx))"
  by pat_completeness auto

termination
  by (relation "measure (\<lambda>(number, lx). length (source lx) - index lx)") auto

definition next_number :: "Lexer \<Rightarrow> error + (string \<times> Lexer)" where
  "next_number lx = next_number_loop [] lx"

definition next_symbol :: "Lexer \<Rightarrow> error + (string \<times> Lexer)" where
  "next_symbol lx =
     (case current_char lx of
        Inl e \<Rightarrow> Inl e
      | Inr c \<Rightarrow> Inr ([c], lx\<lparr>index := index lx + 1\<rparr>))"

function next_token :: "Lexer \<Rightarrow> error + (string option \<times> Lexer)" where
  "next_token lx =
     (if index lx < length (source lx) then
        (case is_digit lx of
           Inl e \<Rightarrow> Inl e
         | Inr True \<Rightarrow>
             (case next_number lx of Inl e \<Rightarrow> Inl e | Inr (t, lx') \<Rightarrow> Inr (Some t, lx'))
         | Inr False \<Rightarrow>
             (case is_symbol lx of
                Inl e \<Rightarrow> Inl e
              | Inr True \<Rightarrow>
                  (case next_symbol lx of Inl e \<Rightarrow> Inl e | Inr (t, lx') \<Rightarrow> Inr (Some t, lx'))
              | Inr False \<Rightarrow>
                  (case current_char lx of
                     Inl e \<Rightarrow> Inl e
                   | Inr c \<Rightarrow>
                       if c = CHR '' '' then next_token (lx\<lparr>index := index lx + 1\<rparr>)
                       else Inl (LexicalError (''Invalid symbol: '' @ [c])))))
      else Inr (None, lx))"
  by pat_completeness auto

termination
  by (relation "measure (\<lambda>lx. length (source lx) - index lx)") auto

section \<open>Expression trees\<close>

text \<open>
  The classes of the tree are the constructors of one datatype, as Python checks the
  class of a child only when a node is built. \<open>SingleRelation\<close>, \<open>SingleTerm\<close> and
  \<open>SingleFactor\<close> store \<open>right = None\<close> and are the constructors with one child; the
  parser builds every other \<open>Binary\<close> node with both children. The predicates
  \<open>is_Primary\<close>, \<open>is_Relation\<close>, \<open>is_Term\<close> and \<open>is_Factor\<close> are \<open>isinstance\<close>
  against the four base classes, and \<open>new_C\<close> is the constructor call \<open>C(...)\<close> with the
  assertions of \<open>__init__\<close>.
\<close>

datatype expression =
    Integer string
  | Parenthesized expression
  | Less expression expression
  | Greater expression expression
  | Equal expression expression
  | SingleRelation expression
  | AddTerm expression expression
  | SubTerm expression expression
  | SingleTerm expression
  | Factor expression expression
  | SingleFactor expression

fun is_Primary :: "expression \<Rightarrow> bool" where
  "is_Primary (Integer n) = True"
| "is_Primary (Parenthesized e) = True"
| "is_Primary _ = False"

fun is_Relation :: "expression \<Rightarrow> bool" where
  "is_Relation (Less l r) = True"
| "is_Relation (Greater l r) = True"
| "is_Relation (Equal l r) = True"
| "is_Relation (SingleRelation t) = True"
| "is_Relation _ = False"

fun is_Term :: "expression \<Rightarrow> bool" where
  "is_Term (AddTerm l r) = True"
| "is_Term (SubTerm l r) = True"
| "is_Term (SingleTerm f) = True"
| "is_Term _ = False"

fun is_Factor :: "expression \<Rightarrow> bool" where
  "is_Factor (Factor l r) = True"
| "is_Factor (SingleFactor p) = True"
| "is_Factor _ = False"

definition is_Expression :: "expression \<Rightarrow> bool" where
  "is_Expression e = (is_Primary e \<or> is_Relation e \<or> is_Term e \<or> is_Factor e)"

definition new_Integer :: "string \<Rightarrow> error + expression" where
  "new_Integer number = (if isdigit number then Inr (Integer number) else Inl AssertionError)"

definition new_Parenthesized :: "expression \<Rightarrow> error + expression" where
  "new_Parenthesized e = (if is_Expression e then Inr (Parenthesized e) else Inl AssertionError)"

definition new_Less :: "expression \<Rightarrow> expression \<Rightarrow> error + expression" where
  "new_Less l r = (if is_Term l \<and> is_Term r then Inr (Less l r) else Inl AssertionError)"

definition new_Greater :: "expression \<Rightarrow> expression \<Rightarrow> error + expression" where
  "new_Greater l r = (if is_Term l \<and> is_Term r then Inr (Greater l r) else Inl AssertionError)"

definition new_Equal :: "expression \<Rightarrow> expression \<Rightarrow> error + expression" where
  "new_Equal l r = (if is_Term l \<and> is_Term r then Inr (Equal l r) else Inl AssertionError)"

definition new_SingleRelation :: "expression \<Rightarrow> error + expression" where
  "new_SingleRelation t = (if is_Term t then Inr (SingleRelation t) else Inl AssertionError)"

definition new_AddTerm :: "expression \<Rightarrow> expression \<Rightarrow> error + expression" where
  "new_AddTerm l r =
     (if (is_Term l \<or> is_Factor l) \<and> is_Factor r then Inr (AddTerm l r) else Inl AssertionError)"

definition new_SubTerm :: "expression \<Rightarrow> expression \<Rightarrow> error + expression" where
  "new_SubTerm l r =
     (if (is_Term l \<or> is_Factor l) \<and> is_Factor r then Inr (SubTerm l r) else Inl AssertionError)"

definition new_SingleTerm :: "expression \<Rightarrow> error + expression" where
  "new_SingleTerm f = (if is_Factor f then Inr (SingleTerm f) else Inl AssertionError)"

definition new_Factor :: "expression \<Rightarrow> expression \<Rightarrow> error + expression" where
  "new_Factor l r =
     (if (is_Factor l \<or> is_Primary l) \<and> is_Primary r then Inr (Factor l r) else Inl AssertionError)"

definition new_SingleFactor :: "expression \<Rightarrow> error + expression" where
  "new_SingleFactor p = (if is_Primary p then Inr (SingleFactor p) else Inl AssertionError)"

text \<open>\<open>calculate\<close>: the left child is evaluated before the right one.\<close>

fun calculate :: "expression \<Rightarrow> error + int" where
  "calculate (Integer number) = py_int number"
| "calculate (Parenthesized e) = calculate e"
| "calculate (Less l r) =
     (case calculate l of Inl e \<Rightarrow> Inl e | Inr a \<Rightarrow>
        (case calculate r of Inl e \<Rightarrow> Inl e | Inr b \<Rightarrow> Inr (if a < b then 1 else 0)))"
| "calculate (Greater l r) =
     (case calculate l of Inl e \<Rightarrow> Inl e | Inr a \<Rightarrow>
        (case calculate r of Inl e \<Rightarrow> Inl e | Inr b \<Rightarrow> Inr (if a > b then 1 else 0)))"
| "calculate (Equal l r) =
     (case calculate l of Inl e \<Rightarrow> Inl e | Inr a \<Rightarrow>
        (case calculate r of Inl e \<Rightarrow> Inl e | Inr b \<Rightarrow> Inr (if a = b then 1 else 0)))"
| "calculate (SingleRelation t) = calculate t"
| "calculate (AddTerm l r) =
     (case calculate l of Inl e \<Rightarrow> Inl e | Inr a \<Rightarrow>
        (case calculate r of Inl e \<Rightarrow> Inl e | Inr b \<Rightarrow> Inr (a + b)))"
| "calculate (SubTerm l r) =
     (case calculate l of Inl e \<Rightarrow> Inl e | Inr a \<Rightarrow>
        (case calculate r of Inl e \<Rightarrow> Inl e | Inr b \<Rightarrow> Inr (a - b)))"
| "calculate (SingleTerm f) = calculate f"
| "calculate (Factor l r) =
     (case calculate l of Inl e \<Rightarrow> Inl e | Inr a \<Rightarrow>
        (case calculate r of Inl e \<Rightarrow> Inl e | Inr b \<Rightarrow> Inr (a * b)))"
| "calculate (SingleFactor p) = calculate p"

text \<open>\<open>__str__\<close>, the rendering of a tree.\<close>

fun expression_str :: "expression \<Rightarrow> string" where
  "expression_str (Integer number) = ''Integer('' @ number @ '')''"
| "expression_str (Parenthesized e) = ''Parenthesized('' @ expression_str e @ '')''"
| "expression_str (Less l r) = ''Less('' @ expression_str l @ '','' @ expression_str r @ '')''"
| "expression_str (Greater l r) =
     ''Greater('' @ expression_str l @ '','' @ expression_str r @ '')''"
| "expression_str (Equal l r) = ''Equal('' @ expression_str l @ '','' @ expression_str r @ '')''"
| "expression_str (SingleRelation t) = ''SingleRelation('' @ expression_str t @ '')''"
| "expression_str (AddTerm l r) =
     ''AddTerm('' @ expression_str l @ '','' @ expression_str r @ '')''"
| "expression_str (SubTerm l r) =
     ''SubTerm('' @ expression_str l @ '','' @ expression_str r @ '')''"
| "expression_str (SingleTerm f) = ''SingleTerm('' @ expression_str f @ '')''"
| "expression_str (Factor l r) =
     ''Factor('' @ expression_str l @ '','' @ expression_str r @ '')''"
| "expression_str (SingleFactor p) = ''SingleFactor('' @ expression_str p @ '')''"

section \<open>Parser\<close>

text \<open>
  The parser owns its lexer and the current token. Each parsing method returns the node
  it built together with the parser after the call, or the exception it raised. The
  \<open>while\<close> loops of \<open>parse_term\<close> and \<open>parse_factor\<close> are the functions
  \<open>parse_term_loop\<close> and \<open>parse_factor_loop\<close>, whose arguments are the locals
  \<open>left\<close>, \<open>right\<close> and \<open>token\<close> of the method. On a missing token
  \<open>token.isdigit()\<close> raises \<open>AttributeError\<close>. The recursion limit of the
  interpreter is not modelled.
\<close>

record Parser =
  expression_string :: string
  lexer :: Lexer
  token :: "string option"

definition Parser_init :: "string \<Rightarrow> Parser" where
  "Parser_init s = \<lparr>expression_string = s, lexer = Lexer_init s, token = None\<rparr>"

definition current_token :: "Parser \<Rightarrow> string option" where
  "current_token p = token p"

definition Parser_next_token :: "Parser \<Rightarrow> error + (string option \<times> Parser)" where
  "Parser_next_token p =
     (case next_token (lexer p) of
        Inl e \<Rightarrow> Inl e
      | Inr (t, lx) \<Rightarrow> Inr (t, p\<lparr>lexer := lx, token := t\<rparr>))"

definition with_state :: "Parser \<Rightarrow> error + expression \<Rightarrow> error + (expression \<times> Parser)" where
  "with_state p r = (case r of Inl e \<Rightarrow> Inl e | Inr x \<Rightarrow> Inr (x, p))"

function parse :: "Parser \<Rightarrow> error + (expression \<times> Parser)"
  and parse_relation :: "Parser \<Rightarrow> error + (expression \<times> Parser)"
  and parse_term :: "Parser \<Rightarrow> error + (expression \<times> Parser)"
  and parse_term_loop ::
    "expression \<Rightarrow> expression option \<Rightarrow> string option \<Rightarrow> Parser \<Rightarrow> error + (expression \<times> Parser)"
  and parse_factor :: "Parser \<Rightarrow> error + (expression \<times> Parser)"
  and parse_factor_loop ::
    "expression \<Rightarrow> expression option \<Rightarrow> string option \<Rightarrow> Parser \<Rightarrow> error + (expression \<times> Parser)"
  and parse_primary :: "Parser \<Rightarrow> error + (expression \<times> Parser)"
where
  "parse p = parse_relation p"
| "parse_relation p =
     (case parse_term p of
        Inl e \<Rightarrow> Inl e
      | Inr (left, p1) \<Rightarrow>
          (let tok = current_token p1 in
           if tok = Some ''<'' then
             (case parse_term p1 of
                Inl e \<Rightarrow> Inl e
              | Inr (right, p2) \<Rightarrow> with_state p2 (new_Less left right))
           else if tok = Some ''>'' then
             (case parse_term p1 of
                Inl e \<Rightarrow> Inl e
              | Inr (right, p2) \<Rightarrow> with_state p2 (new_Greater left right))
           else if tok = Some ''='' then
             (case parse_term p1 of
                Inl e \<Rightarrow> Inl e
              | Inr (right, p2) \<Rightarrow> with_state p2 (new_Equal left right))
           else with_state p1 (new_SingleRelation left)))"
| "parse_term p =
     (case parse_factor p of
        Inl e \<Rightarrow> Inl e
      | Inr (left, p1) \<Rightarrow> parse_term_loop left None (current_token p1) p1)"
| "parse_term_loop left right tok p =
     (if tok \<in> {Some ''+'', Some ''-''} then
        (case parse_factor p of
           Inl e \<Rightarrow> Inl e
         | Inr (right', p1) \<Rightarrow>
             (case (if tok = Some ''+'' then new_AddTerm left right'
                    else if tok = Some ''-'' then new_SubTerm left right'
                    else Inr left) of
                Inl e \<Rightarrow> Inl e
              | Inr left' \<Rightarrow> parse_term_loop left' (Some right') (current_token p1) p1))
      else if right = None then with_state p (new_SingleTerm left)
      else Inr (left, p))"
| "parse_factor p =
     (case parse_primary p of
        Inl e \<Rightarrow> Inl e
      | Inr (left, p1) \<Rightarrow>
          (case Parser_next_token p1 of
             Inl e \<Rightarrow> Inl e
           | Inr (tok, p2) \<Rightarrow> parse_factor_loop left None tok p2))"
| "parse_factor_loop left right tok p =
     (if tok = Some ''*'' then
        (case parse_primary p of
           Inl e \<Rightarrow> Inl e
         | Inr (right', p1) \<Rightarrow>
             (case new_Factor left right' of
                Inl e \<Rightarrow> Inl e
              | Inr left' \<Rightarrow>
                  (case Parser_next_token p1 of
                     Inl e \<Rightarrow> Inl e
                   | Inr (tok', p2) \<Rightarrow> parse_factor_loop left' (Some right') tok' p2)))
      else if right = None then with_state p (new_SingleFactor left)
      else Inr (left, p))"
| "parse_primary p =
     (case Parser_next_token p of
        Inl e \<Rightarrow> Inl e
      | Inr (tok, p1) \<Rightarrow>
          (case tok of
             None \<Rightarrow> Inl AttributeError
           | Some t \<Rightarrow>
               if isdigit t then with_state p1 (new_Integer t)
               else if t = ''('' then
                 (case parse p1 of
                    Inl e \<Rightarrow> Inl e
                  | Inr (expression, p2) \<Rightarrow>
                      (let tok2 = current_token p2 in
                       if tok2 \<noteq> Some '')'' then
                         Inl (SyntaxError (''Expected '' @ [CHR 0x27] @ '')'' @ [CHR 0x27]
                                @ '', got '' @ [CHR 0x27] @ format_token tok2 @ [CHR 0x27]))
                       else with_state p2 (new_Parenthesized expression)))
               else Inl (SyntaxError (''Expected integer or parenthesis, got ''
                           @ [CHR 0x27] @ format_token (Some t) @ [CHR 0x27]))))"
  by pat_completeness auto

section \<open>Running the parser on a text\<close>

text \<open>
  \<open>Parser(s).parse()\<close>, then \<open>calculate()\<close> or \<open>str()\<close> on the tree, as \<open>main\<close>
  does with the line it read.
\<close>

definition parse_tree :: "string \<Rightarrow> error + expression" where
  "parse_tree s = (case parse (Parser_init s) of Inl e \<Rightarrow> Inl e | Inr (tree, p) \<Rightarrow> Inr tree)"

definition evaluate :: "string \<Rightarrow> error + int" where
  "evaluate s = (case parse_tree s of Inl e \<Rightarrow> Inl e | Inr tree \<Rightarrow> calculate tree)"

definition render :: "string \<Rightarrow> error + string" where
  "render s = (case parse_tree s of Inl e \<Rightarrow> Inl e | Inr tree \<Rightarrow> Inr (expression_str tree))"

section \<open>The measure of the parser\<close>

text \<open>
  What the termination of the parsing methods rests on: the part of the source the lexer
  has not read, and the place of a method in the order in which the methods call each
  other on the same parser.
\<close>

definition unread :: "Parser \<Rightarrow> nat" where
  "unread p = length (source (lexer p)) - index (lexer p)"

definition consumed :: "Parser \<Rightarrow> Parser \<Rightarrow> bool" where
  "consumed p p' = (source (lexer p') = source (lexer p) \<and> unread p' < unread p)"

definition advanced :: "Parser \<Rightarrow> Parser \<Rightarrow> bool" where
  "advanced p p' = (source (lexer p') = source (lexer p) \<and> unread p' \<le> unread p)"

type_synonym loop_args = "expression \<times> expression option \<times> string option \<times> Parser"

fun call_state ::
  "(Parser + Parser + Parser) + (loop_args + Parser) + (loop_args + Parser) \<Rightarrow> Parser" where
  "call_state (Inl (Inl p)) = p"
| "call_state (Inl (Inr (Inl p))) = p"
| "call_state (Inl (Inr (Inr p))) = p"
| "call_state (Inr (Inl (Inl (l, r, t, p)))) = p"
| "call_state (Inr (Inl (Inr p))) = p"
| "call_state (Inr (Inr (Inl (l, r, t, p)))) = p"
| "call_state (Inr (Inr (Inr p))) = p"

fun call_rank ::
  "(Parser + Parser + Parser) + (loop_args + Parser) + (loop_args + Parser) \<Rightarrow> nat" where
  "call_rank (Inl (Inl p)) = 6"
| "call_rank (Inl (Inr (Inl p))) = 5"
| "call_rank (Inl (Inr (Inr p))) = 4"
| "call_rank (Inr (Inl (Inl (l, r, t, p)))) = 3"
| "call_rank (Inr (Inl (Inr p))) = 2"
| "call_rank (Inr (Inr (Inl (l, r, t, p)))) = 1"
| "call_rank (Inr (Inr (Inr p))) = 0"

section \<open>Notions the properties are stated with\<close>

text \<open>
  The decimal value of a digit string, stated apart from \<open>py_int\<close>: the value of the
  last digit plus ten times the decimal value of the digits before it.
\<close>

fun digits_value_rev :: "string \<Rightarrow> int" where
  "digits_value_rev [] = 0"
| "digits_value_rev (c # cs) = digit_value c + 10 * digits_value_rev cs"

definition decimal_value :: "string \<Rightarrow> int" where
  "decimal_value d = digits_value_rev (rev d)"

text \<open>
  \<open>str(n)\<close> for an integer \<open>n \<ge> 0\<close>: its decimal digits, with no sign and no leading
  zero.
\<close>

definition digit_char :: "nat \<Rightarrow> char" where
  "digit_char k = ''0123456789'' ! k"

fun str_nat :: "nat \<Rightarrow> string" where
  "str_nat n = (if n < 10 then [digit_char n] else str_nat (n div 10) @ [digit_char (n mod 10)])"

declare str_nat.simps [simp del]

text \<open>A number that \<open>int\<close> converts: a non-empty run of decimal digits within the limit.\<close>

definition short_number :: "string \<Rightarrow> bool" where
  "short_number d = (d \<noteq> [] \<and> list_all is_decimal d \<and> length d \<le> int_max_str_digits)"

text \<open>\<open>n\<close> calls of \<open>next_token\<close> in a row: the tokens in order, or the first exception.\<close>

fun next_tokens :: "nat \<Rightarrow> Lexer \<Rightarrow> error + (string option list \<times> Lexer)" where
  "next_tokens 0 lx = Inr ([], lx)"
| "next_tokens (Suc n) lx =
     (case next_token lx of
        Inl e \<Rightarrow> Inl e
      | Inr (t, lx') \<Rightarrow>
          (case next_tokens n lx' of Inl e \<Rightarrow> Inl e | Inr (ts, lx'') \<Rightarrow> Inr (t # ts, lx'')))"

text \<open>
  A chain is a first number \<open>d0\<close> followed by pairs of an operator \<open>+\<close> or \<open>-\<close> and a
  number. \<open>chain_text\<close> is the text of the pairs, \<open>chain_tree\<close> the tree that folds
  them into the first number from the left, and \<open>chain_value\<close> the value of that
  fold in the order of the text.
\<close>

fun chain_text :: "(char \<times> string) list \<Rightarrow> string" where
  "chain_text [] = []"
| "chain_text ((c, d) # ods) = c # d @ chain_text ods"

definition chain_tree :: "string \<Rightarrow> (char \<times> string) list \<Rightarrow> expression" where
  "chain_tree d0 ods =
     foldl (\<lambda>t (c, d). if c = CHR ''+'' then AddTerm t (SingleFactor (Integer d))
                         else SubTerm t (SingleFactor (Integer d)))
       (SingleFactor (Integer d0)) ods"

definition chain_value :: "string \<Rightarrow> (char \<times> string) list \<Rightarrow> int" where
  "chain_value d0 ods =
     foldl (\<lambda>a (c, d). if c = CHR ''+'' then a + decimal_value d else a - decimal_value d)
       (decimal_value d0) ods"

definition chain_ok :: "(char \<times> string) list \<Rightarrow> bool" where
  "chain_ok ods =
     list_all (\<lambda>(c, d). (c = CHR ''+'' \<or> c = CHR ''-'') \<and> d \<noteq> [] \<and> list_all is_decimal d) ods"

text \<open>No number of the chain is longer than the limit of \<open>int\<close>.\<close>

definition chain_short :: "(char \<times> string) list \<Rightarrow> bool" where
  "chain_short ods = list_all (\<lambda>(c, d). length d \<le> int_max_str_digits) ods"

text \<open>The parser in front of the rest of a chain: the operator is the current token.\<close>

definition chain_state :: "string \<Rightarrow> string \<Rightarrow> (char \<times> string) list \<Rightarrow> Parser" where
  "chain_state es pre ods =
     \<lparr>expression_string = es,
      lexer = \<lparr>source = pre @ chain_text ods,
               index = length pre + (if ods = [] then 0 else 1)\<rparr>,
      token = (case ods of [] \<Rightarrow> None | (c, d) # _ \<Rightarrow> Some [c])\<rparr>"




section \<open>The lexer only moves forward\<close>

declare next_number_loop.simps [simp del]

declare next_token.simps [simp del]

lemma next_number_loop_index:
  "next_number_loop number lx = Inr (s, lx') \<Longrightarrow>
     source lx' = source lx \<and> index lx \<le> index lx'"
proof (induction number lx rule: next_number_loop.induct)
  case (1 number lx)
  show ?case
  proof (cases "index lx < length (source lx) \<and> is_digit lx = Inr True")
    case False
    with "1.prems" show ?thesis
      by (subst (asm) next_number_loop.simps) (auto split: sum.splits bool.splits if_splits)
  next
    case True
    then have inb: "index lx < length (source lx)" and dg: "is_digit lx = Inr True" by auto
    from inb have c: "current_char lx = Inr (source lx ! index lx)"
      by (simp add: current_char_def)
    have "next_number_loop number lx =
            next_number_loop (number @ [source lx ! index lx]) (lx\<lparr>index := index lx + 1\<rparr>)"
      by (subst next_number_loop.simps) (simp add: inb dg c)
    with "1.prems" have "next_number_loop (number @ [source lx ! index lx])
         (lx\<lparr>index := index lx + 1\<rparr>) = Inr (s, lx')" by simp
    from "1.IH"[OF inb dg _ c this] show ?thesis by simp
  qed
qed

lemma next_token_end:
  "\<not> index lx < length (source lx) \<Longrightarrow> next_token lx = Inr (None, lx)"
  by (subst next_token.simps) simp

lemma next_token_number:
  "index lx < length (source lx) \<Longrightarrow> is_digit lx = Inr True \<Longrightarrow>
   next_token lx = (case next_number lx of Inl e \<Rightarrow> Inl e | Inr (t, lx') \<Rightarrow> Inr (Some t, lx'))"
  by (subst next_token.simps) simp

lemma next_token_symbol:
  "index lx < length (source lx) \<Longrightarrow> is_digit lx = Inr False \<Longrightarrow> is_symbol lx = Inr True \<Longrightarrow>
   next_token lx = Inr (Some [source lx ! index lx], lx\<lparr>index := index lx + 1\<rparr>)"
  by (subst next_token.simps) (simp add: next_symbol_def current_char_def)

lemma next_token_other:
  "index lx < length (source lx) \<Longrightarrow> is_digit lx = Inr False \<Longrightarrow> is_symbol lx = Inr False \<Longrightarrow>
   next_token lx =
     (if source lx ! index lx = CHR '' '' then next_token (lx\<lparr>index := index lx + 1\<rparr>)
      else Inl (LexicalError (''Invalid symbol: '' @ [source lx ! index lx])))"
  by (subst next_token.simps) (simp add: current_char_def)

lemma is_digit_cases:
  "index lx < length (source lx) \<Longrightarrow> is_digit lx = Inr (isdigit [source lx ! index lx])"
  by (simp add: is_digit_def current_char_def)

lemma is_symbol_cases:
  "index lx < length (source lx) \<Longrightarrow>
     is_symbol lx = Inr ([source lx ! index lx] \<in> set ALLOWED_SYMBOLS)"
  by (simp add: is_symbol_def current_char_def)

lemma next_token_index:
  "next_token lx = Inr (t, lx') \<Longrightarrow>
     source lx' = source lx \<and> index lx \<le> index lx' \<and>
     (t \<noteq> None \<longrightarrow> index lx < length (source lx) \<and> index lx < index lx')"
proof (induction lx rule: next_token.induct)
  case (1 lx)
  show ?case
  proof (cases "index lx < length (source lx)")
    case False
    with "1.prems" show ?thesis by (simp add: next_token_end)
  next
    case inb: True
    note dg = is_digit_cases[OF inb] and sy = is_symbol_cases[OF inb]
    from inb have c: "current_char lx = Inr (source lx ! index lx)"
      by (simp add: current_char_def)
    show ?thesis
    proof (cases "isdigit [source lx ! index lx]")
      case True
      with dg have dgT: "is_digit lx = Inr True" by simp
      from "1.prems" obtain s where nn: "next_number lx = Inr (s, lx')" and t: "t = Some s"
        by (auto simp: next_token_number[OF inb dgT] split: sum.splits)
      have "next_number lx =
              next_number_loop [source lx ! index lx] (lx\<lparr>index := index lx + 1\<rparr>)"
        unfolding next_number_def
        by (subst next_number_loop.simps) (simp add: inb dgT c)
      with nn have "next_number_loop [source lx ! index lx] (lx\<lparr>index := index lx + 1\<rparr>)
          = Inr (s, lx')" by simp
      from next_number_loop_index[OF this] inb t show ?thesis by simp
    next
      case False
      with dg have dgF: "is_digit lx = Inr False" by simp
      show ?thesis
      proof (cases "[source lx ! index lx] \<in> set ALLOWED_SYMBOLS")
        case True
        with sy have syT: "is_symbol lx = Inr True" by simp
        from "1.prems" inb show ?thesis
          by (auto simp: next_token_symbol[OF inb dgF syT])
      next
        case False
        with sy have syF: "is_symbol lx = Inr False" by simp
        from "1.prems" have sp: "source lx ! index lx = CHR '' ''"
          by (simp add: next_token_other[OF inb dgF syF] split: if_splits)
        with "1.prems" have rec: "next_token (lx\<lparr>index := index lx + 1\<rparr>) = Inr (t, lx')"
          by (simp add: next_token_other[OF inb dgF syF])
        have "source lx' = source (lx\<lparr>index := index lx + 1\<rparr>) \<and>
              index (lx\<lparr>index := index lx + 1\<rparr>) \<le> index lx'"
          using "1.IH"[OF inb dgF _ syF _ c sp rec] by simp
        then show ?thesis using inb by simp
      qed
    qed
  qed
qed

lemma consumed_advanced: "consumed p p' \<Longrightarrow> advanced p p'"
  by (simp add: consumed_def advanced_def)

lemma advanced_refl: "advanced p p"
  by (simp add: advanced_def)

lemma advanced_trans: "advanced p q \<Longrightarrow> advanced q r \<Longrightarrow> advanced p r"
  by (simp add: advanced_def)

lemma consumed_advanced_trans: "consumed p q \<Longrightarrow> advanced q r \<Longrightarrow> consumed p r"
  by (simp add: advanced_def consumed_def)

lemma advanced_consumed_trans: "advanced p q \<Longrightarrow> consumed q r \<Longrightarrow> consumed p r"
  by (simp add: advanced_def consumed_def)

lemma Parser_next_token_advanced:
  "Parser_next_token p = Inr (t, p') \<Longrightarrow> advanced p p' \<and> (t \<noteq> None \<longrightarrow> consumed p p')"
  by (auto simp: Parser_next_token_def advanced_def consumed_def unread_def
           split: sum.splits dest!: next_token_index)

lemma with_state_Inr: "with_state p r = Inr (e, p') \<Longrightarrow> p' = p"
  by (auto simp: with_state_def split: sum.splits)

lemmas parse_pinduct =
  parse_parse_relation_parse_term_parse_term_loop_parse_factor_parse_factor_loop_parse_primary.pinduct

lemma parse_progress_partial:
  "parse_parse_relation_parse_term_parse_term_loop_parse_factor_parse_factor_loop_parse_primary_dom
     (Inl (Inl p0)) \<Longrightarrow> (\<forall>e p'. parse p0 = Inr (e, p') \<longrightarrow> consumed p0 p')"
  "parse_parse_relation_parse_term_parse_term_loop_parse_factor_parse_factor_loop_parse_primary_dom
     (Inl (Inr (Inl p1))) \<Longrightarrow> (\<forall>e p'. parse_relation p1 = Inr (e, p') \<longrightarrow> consumed p1 p')"
  "parse_parse_relation_parse_term_parse_term_loop_parse_factor_parse_factor_loop_parse_primary_dom
     (Inl (Inr (Inr p2))) \<Longrightarrow> (\<forall>e p'. parse_term p2 = Inr (e, p') \<longrightarrow> consumed p2 p')"
  "parse_parse_relation_parse_term_parse_term_loop_parse_factor_parse_factor_loop_parse_primary_dom
     (Inr (Inl (Inl (l3, r3, t3, p3)))) \<Longrightarrow>
     (\<forall>e p'. parse_term_loop l3 r3 t3 p3 = Inr (e, p') \<longrightarrow> advanced p3 p')"
  "parse_parse_relation_parse_term_parse_term_loop_parse_factor_parse_factor_loop_parse_primary_dom
     (Inr (Inl (Inr p4))) \<Longrightarrow> (\<forall>e p'. parse_factor p4 = Inr (e, p') \<longrightarrow> consumed p4 p')"
  "parse_parse_relation_parse_term_parse_term_loop_parse_factor_parse_factor_loop_parse_primary_dom
     (Inr (Inr (Inl (l5, r5, t5, p5)))) \<Longrightarrow>
     (\<forall>e p'. parse_factor_loop l5 r5 t5 p5 = Inr (e, p') \<longrightarrow> advanced p5 p')"
  "parse_parse_relation_parse_term_parse_term_loop_parse_factor_parse_factor_loop_parse_primary_dom
     (Inr (Inr (Inr p6))) \<Longrightarrow> (\<forall>e p'. parse_primary p6 = Inr (e, p') \<longrightarrow> consumed p6 p')"
proof (induct rule: parse_pinduct)
  case (1 p)
  then show ?case by (simp add: parse.psimps)
next
  case (2 p)
  show ?case
  proof (intro allI impI)
    fix e p' assume r: "parse_relation p = Inr (e, p')"
    from r obtain left p1 where t1: "parse_term p = Inr (left, p1)"
      by (subst (asm) parse_relation.psimps[OF "2.hyps"(1)]) (auto split: sum.splits)
    with "2.hyps"(2) have c1: "consumed p p1" by simp
    show "consumed p p'"
    proof (cases "current_token p1 \<in> {Some ''<'', Some ''>'', Some ''=''}")
      case False
      with r t1 have "p' = p1"
        by (subst (asm) parse_relation.psimps[OF "2.hyps"(1)])
           (auto simp: Let_def dest: with_state_Inr)
      with c1 show ?thesis by simp
    next
      case True
      with r t1 obtain right p2 where t2: "parse_term p1 = Inr (right, p2)" and p': "p' = p2"
        by (subst (asm) parse_relation.psimps[OF "2.hyps"(1)])
           (auto simp: Let_def dest: with_state_Inr split: sum.splits if_splits)
      from True t1 t2 "2.hyps"(3-5)[OF t1 refl refl] have "consumed p1 p2"
        by auto
      with c1 p' show ?thesis
        by (auto intro: consumed_advanced_trans consumed_advanced)
    qed
  qed
next
  case (3 p)
  show ?case
  proof (intro allI impI)
    fix e p' assume r: "parse_term p = Inr (e, p')"
    from r obtain left p1 where f1: "parse_factor p = Inr (left, p1)"
      and l: "parse_term_loop left None (current_token p1) p1 = Inr (e, p')"
      by (subst (asm) parse_term.psimps[OF "3.hyps"(1)]) (auto split: sum.splits)
    from "3.hyps"(2) f1 have "consumed p p1" by simp
    moreover from "3.hyps"(3)[OF f1 refl] l have "advanced p1 p'" by simp
    ultimately show "consumed p p'" by (rule consumed_advanced_trans)
  qed
next
  case (4 left right tok p)
  show ?case
  proof (intro allI impI)
    fix e p' assume r: "parse_term_loop left right tok p = Inr (e, p')"
    show "advanced p p'"
    proof (cases "tok \<in> {Some ''+'', Some ''-''}")
      case False
      with r have "p' = p"
        by (subst (asm) parse_term_loop.psimps[OF "4.hyps"(1)])
           (auto dest: with_state_Inr split: if_splits)
      then show ?thesis by (simp add: advanced_refl)
    next
      case True
      with r obtain right' p1 left' where f1: "parse_factor p = Inr (right', p1)"
        and n: "(if tok = Some ''+'' then new_AddTerm left right'
                 else if tok = Some ''-'' then new_SubTerm left right'
                 else Inr left) = Inr left'"
        and l: "parse_term_loop left' (Some right') (current_token p1) p1 = Inr (e, p')"
        by (subst (asm) parse_term_loop.psimps[OF "4.hyps"(1)])
           (auto split: sum.splits)
      from "4.hyps"(2)[OF True] f1 have "consumed p p1" by simp
      moreover from "4.hyps"(3)[OF True f1 refl n] l have "advanced p1 p'" by simp
      ultimately show ?thesis by (auto intro: consumed_advanced_trans consumed_advanced)
    qed
  qed
next
  case (5 p)
  show ?case
  proof (intro allI impI)
    fix e p' assume r: "parse_factor p = Inr (e, p')"
    from r obtain left p1 tok p2 where f1: "parse_primary p = Inr (left, p1)"
      and nt: "Parser_next_token p1 = Inr (tok, p2)"
      and l: "parse_factor_loop left None tok p2 = Inr (e, p')"
      by (subst (asm) parse_factor.psimps[OF "5.hyps"(1)]) (auto split: sum.splits)
    from "5.hyps"(2) f1 have "consumed p p1" by simp
    moreover from nt have "advanced p1 p2" by (simp add: Parser_next_token_advanced)
    moreover from "5.hyps"(3)[OF f1 refl nt refl] l have "advanced p2 p'" by simp
    ultimately show "consumed p p'"
      by (blast intro: consumed_advanced_trans)
  qed
next
  case (6 left right tok p)
  show ?case
  proof (intro allI impI)
    fix e p' assume r: "parse_factor_loop left right tok p = Inr (e, p')"
    show "advanced p p'"
    proof (cases "tok = Some ''*''")
      case False
      with r have "p' = p"
        by (subst (asm) parse_factor_loop.psimps[OF "6.hyps"(1)])
           (auto dest: with_state_Inr split: if_splits)
      then show ?thesis by (simp add: advanced_refl)
    next
      case True
      with r obtain right' p1 left' tok' p2 where f1: "parse_primary p = Inr (right', p1)"
        and n: "new_Factor left right' = Inr left'"
        and nt: "Parser_next_token p1 = Inr (tok', p2)"
        and l: "parse_factor_loop left' (Some right') tok' p2 = Inr (e, p')"
        by (subst (asm) parse_factor_loop.psimps[OF "6.hyps"(1)])
           (auto split: sum.splits)
      from "6.hyps"(2)[OF True] f1 have "consumed p p1" by simp
      moreover from nt have "advanced p1 p2" by (simp add: Parser_next_token_advanced)
      moreover from "6.hyps"(3)[OF True f1 refl n nt refl] l have "advanced p2 p'" by simp
      ultimately show ?thesis
        by (blast intro: consumed_advanced_trans consumed_advanced)
    qed
  qed
next
  case (7 p)
  show ?case
  proof (intro allI impI)
    fix e p' assume r: "parse_primary p = Inr (e, p')"
    from r obtain t p1 where nt: "Parser_next_token p = Inr (Some t, p1)"
      by (subst (asm) parse_primary.psimps[OF "7.hyps"(1)])
         (auto split: sum.splits option.splits)
    then have c1: "consumed p p1" by (simp add: Parser_next_token_advanced)
    show "consumed p p'"
    proof (cases "isdigit t")
      case True
      with r nt have "p' = p1"
        by (subst (asm) parse_primary.psimps[OF "7.hyps"(1)])
           (auto dest: with_state_Inr)
      with c1 show ?thesis by simp
    next
      case False
      with r nt obtain ex p2 where t: "t = ''(''" and pp: "parse p1 = Inr (ex, p2)" and p': "p' = p2"
        by (subst (asm) parse_primary.psimps[OF "7.hyps"(1)])
           (auto simp: Let_def dest!: with_state_Inr split: sum.splits if_splits)
      from "7.hyps"(2)[OF nt refl refl False t] pp have "consumed p1 p2" by simp
      with c1 p' show ?thesis by (auto intro: consumed_advanced_trans consumed_advanced)
    qed
  qed
qed

termination parse
proof (relation "measures [\<lambda>x. unread (call_state x), call_rank]", goal_cases)
  case 1
  show ?case by simp
next
  case (2 p)
  show ?case by simp
next
  case (3 p)
  show ?case by simp
next
  case (4 p b x y xa)
  then have "consumed p y" using parse_progress_partial(3)[of p] by auto
  then show ?case by (auto simp: consumed_def)
next
  case (5 p b x y xa)
  then have "consumed p y" using parse_progress_partial(3)[of p] by auto
  then show ?case by (auto simp: consumed_def)
next
  case (6 p b x y xa)
  then have "consumed p y" using parse_progress_partial(3)[of p] by auto
  then show ?case by (auto simp: consumed_def)
next
  case (7 p)
  show ?case by simp
next
  case (8 p b x y)
  then have "consumed p y" using parse_progress_partial(5)[of p] by auto
  then show ?case by (auto simp: consumed_def)
next
  case (9 left right tok p)
  show ?case by simp
next
  case (10 left right tok p b x y ba)
  then have "consumed p y" using parse_progress_partial(5)[of p] by auto
  then show ?case by (auto simp: consumed_def)
next
  case (11 p)
  show ?case by simp
next
  case (12 p b x y ba xa ya)
  then have "consumed p y" using parse_progress_partial(7)[of p] by auto
  moreover from 12 have "advanced y ya"
    using Parser_next_token_advanced[of y xa ya] by auto
  ultimately show ?case by (auto simp: consumed_def advanced_def)
next
  case (13 left right tok p)
  show ?case by simp
next
  case (14 left right tok p b x y ba bb xa ya)
  then have "consumed p y" using parse_progress_partial(7)[of p] by auto
  moreover from 14 have "advanced y ya"
    using Parser_next_token_advanced[of y xa ya] by auto
  ultimately show ?case by (auto simp: consumed_def advanced_def)
next
  case (15 p b x y x2)
  then have "consumed p y" using Parser_next_token_advanced[of p x y] by auto
  then show ?case by (auto simp: consumed_def)
qed

declare parse.simps [simp del] parse_relation.simps [simp del] parse_term.simps [simp del]
  parse_term_loop.simps [simp del] parse_factor.simps [simp del]
  parse_factor_loop.simps [simp del] parse_primary.simps [simp del]

section \<open>Stepping the lexer and the parser\<close>

lemma next_number_loop_step:
  "index lx < length (source lx) \<Longrightarrow> char_isdigit (source lx ! index lx) \<Longrightarrow>
   next_number_loop number lx =
     next_number_loop (number @ [source lx ! index lx]) (lx\<lparr>index := index lx + 1\<rparr>)"
  by (subst next_number_loop.simps) (simp add: is_digit_cases isdigit_def current_char_def)

lemma next_number_loop_stop:
  "index lx < length (source lx) \<Longrightarrow> \<not> char_isdigit (source lx ! index lx) \<Longrightarrow>
   next_number_loop number lx = Inr (number, lx)"
  by (subst next_number_loop.simps) (simp add: is_digit_cases isdigit_def)

lemma next_number_loop_end:
  "\<not> index lx < length (source lx) \<Longrightarrow> next_number_loop number lx = Inr (number, lx)"
  by (subst next_number_loop.simps) simp

lemmas lexer_steps =
  next_token_end next_token_number next_token_symbol next_token_other
  next_number_def next_number_loop_step next_number_loop_stop next_number_loop_end
  is_digit_cases is_symbol_cases isdigit_def char_isdigit_def ALLOWED_SYMBOLS_def

lemmas parser_steps =
  Parser_init_def Lexer_init_def Parser_next_token_def current_token_def with_state_def
  new_Integer_def new_Parenthesized_def new_Less_def new_Greater_def new_Equal_def
  new_SingleRelation_def new_AddTerm_def new_SubTerm_def new_SingleTerm_def new_Factor_def
  new_SingleFactor_def is_Expression_def format_token_def
  parse.simps parse_relation.simps parse_term.simps parse_term_loop.simps parse_factor.simps
  parse_factor_loop.simps parse_primary.simps

section \<open>The rendering of a parsed text\<close>

lemma parse_tree_1_plus_2_times_3:
  "parse_tree ''1+2*3'' =
     Inr (SingleRelation
            (AddTerm (SingleFactor (Integer ''1'')) (Factor (Integer ''2'') (Integer ''3''))))"
  by code_simp

text \<open>
  C1, as the program behaves. The text \<open>1+2*3\<close> parses, and its tree renders as
  \<open>SingleRelation(AddTerm(SingleFactor(Integer(1)),Factor(Integer(2),Integer(3))))\<close>:
  \<open>parse_factor\<close> passes the first primary of a product to \<open>Factor\<close> as it is, and
  wraps a primary in \<open>SingleFactor\<close> only when no \<open>*\<close> follows it.
\<close>

theorem render_1_plus_2_times_3:
  "render ''1+2*3'' =
     Inr ''SingleRelation(AddTerm(SingleFactor(Integer(1)),Factor(Integer(2),Integer(3))))''"
  by (simp add: render_def parse_tree_1_plus_2_times_3)

text \<open>
  C1 as stated fails: the rendering of \<open>1+2*3\<close> is not the string with
  \<open>Factor(SingleFactor(Integer(2)),Integer(3))\<close>, with the \<open>SingleRelation\<close> wrapper or
  without it.
\<close>

theorem render_1_plus_2_times_3_counterexample:
  "render ''1+2*3'' \<noteq>
     Inr ''SingleRelation(AddTerm(SingleFactor(Integer(1)),Factor(SingleFactor(Integer(2)),Integer(3))))''
   \<and> render ''1+2*3'' \<noteq>
     Inr ''AddTerm(SingleFactor(Integer(1)),Factor(SingleFactor(Integer(2)),Integer(3)))''"
  by (simp add: render_def parse_tree_1_plus_2_times_3)

section \<open>A primary position at the end of the input\<close>

lemma parse_primary_at_end:
  "Parser_next_token p = Inr (None, p') \<Longrightarrow> parse_primary p = Inl AttributeError"
  by (simp add: parse_primary.simps)

text \<open>
  C2. On \<open>1+\<close> and on the empty text the parser asks for a primary when the lexer has
  no token left. \<open>parse_primary\<close> then calls \<open>isdigit\<close> on \<open>None\<close>, and the parse ends
  with \<open>AttributeError\<close>, not with \<open>SyntaxError\<close>.
\<close>

theorem parse_primary_at_end_of_input:
  "parse_tree ''1+'' = Inl AttributeError \<and> parse_tree [] = Inl AttributeError"
  by code_simp

section \<open>Truth flags\<close>

text \<open>
  C5. Where both children of a \<open>Less\<close>, \<open>Greater\<close> or \<open>Equal\<close> node evaluate, the node
  evaluates to the integer 1 when its comparison holds and to 0 otherwise; \<open>3<5\<close>
  evaluates to 1, \<open>3>5\<close> to 0 and \<open>4=4\<close> to 1.
\<close>

theorem calculate_relation_flag:
  assumes "calculate l = Inr a" and "calculate r = Inr b"
  shows "calculate (Less l r) = Inr (if a < b then 1 else 0)
       \<and> calculate (Greater l r) = Inr (if a > b then 1 else 0)
       \<and> calculate (Equal l r) = Inr (if a = b then 1 else 0)
       \<and> evaluate ''3<5'' = Inr 1 \<and> evaluate ''3>5'' = Inr 0 \<and> evaluate ''4=4'' = Inr 1"
proof -
  have "evaluate ''3<5'' = Inr 1" by code_simp
  moreover have "evaluate ''3>5'' = Inr 0" by code_simp
  moreover have "evaluate ''4=4'' = Inr 1" by code_simp
  ultimately show ?thesis using assms by simp
qed

theorem calculate_relation_flag_witness:
  "calculate (Less (SingleTerm (SingleFactor (Integer ''3'')))
                   (SingleTerm (SingleFactor (Integer ''5'')))) = Inr 1
   \<and> calculate (Greater (SingleTerm (SingleFactor (Integer ''3'')))
                        (SingleTerm (SingleFactor (Integer ''5'')))) = Inr 0
   \<and> calculate (Equal (SingleTerm (SingleFactor (Integer ''3'')))
                      (SingleTerm (SingleFactor (Integer ''5'')))) = Inr 0"
proof -
  have l: "calculate (SingleTerm (SingleFactor (Integer ''3''))) = Inr 3" by code_simp
  have r: "calculate (SingleTerm (SingleFactor (Integer ''5''))) = Inr 5" by code_simp
  from calculate_relation_flag [OF l r] show ?thesis by simp
qed

section \<open>Characters the lexer rejects\<close>

text \<open>
  A character that \<open>isdigit\<close> rejects, that is none of the symbols and no space, ends
  \<open>next_token\<close> with the \<open>LexicalError\<close> that names it, also after spaces.
\<close>

lemma next_token_rejects:
  assumes "\<not> char_isdigit c" and "[c] \<notin> set ALLOWED_SYMBOLS" and "c \<noteq> CHR '' ''"
  shows "next_token \<lparr>source = pre @ replicate k (CHR '' '') @ c # rest, index = length pre\<rparr>
           = Inl (LexicalError (''Invalid symbol: '' @ [c]))"
proof (induction k arbitrary: pre)
  case 0
  from assms show ?case
    by (simp add: next_token_other is_digit_cases is_symbol_cases isdigit_def)
next
  case (Suc k)
  have "next_token \<lparr>source = pre @ replicate (Suc k) (CHR '' '') @ c # rest, index = length pre\<rparr>
      = next_token \<lparr>source = (pre @ '' '') @ replicate k (CHR '' '') @ c # rest,
                    index = length (pre @ '' '')\<rparr>"
    by (simp add: lexer_steps)
  with Suc.IH [of "pre @ '' ''"] show ?case by simp
qed

lemma parse_tree_1_amp_2: "parse_tree ''1&2'' = Inl (LexicalError ''Invalid symbol: &'')"
  by code_simp

text \<open>
  C8. The superscript two (U+00B2) is no decimal digit, none of the eight symbols and no
  space, yet \<open>isdigit\<close> accepts it: the lexer returns it as a number token and raises no
  \<open>LexicalError\<close>, the parser builds an \<open>Integer\<close> node from it, and \<open>calculate\<close>
  ends with \<open>ValueError\<close> in \<open>int\<close>.
\<close>

theorem next_token_superscript_digit:
  "\<not> is_decimal (CHR 0xB2) \<and> [CHR 0xB2] \<notin> set ALLOWED_SYMBOLS \<and> CHR 0xB2 \<noteq> CHR '' ''
   \<and> next_token (Lexer_init [CHR 0xB2]) = Inr (Some [CHR 0xB2], \<lparr>source = [CHR 0xB2], index = 1\<rparr>)
   \<and> parse_tree [CHR 0xB2] =
       Inr (SingleRelation (SingleTerm (SingleFactor (Integer [CHR 0xB2]))))
   \<and> evaluate [CHR 0xB2] = Inl ValueError"
  by code_simp

section \<open>Numbers\<close>

text \<open>
  A run of digits that ends at the end of the input, or before a character that is no
  digit, is one number token.
\<close>

lemma next_number_loop_run:
  assumes "list_all char_isdigit d" and "rest = [] \<or> \<not> char_isdigit (hd rest)"
  shows "next_number_loop number \<lparr>source = pre @ d @ rest, index = length pre\<rparr> =
           Inr (number @ d, \<lparr>source = pre @ d @ rest, index = length pre + length d\<rparr>)"
  using assms(1)
proof (induction d arbitrary: pre number)
  case Nil
  show ?case
  proof (cases rest)
    case Nil
    then show ?thesis by (simp add: next_number_loop_end)
  next
    case (Cons c cs)
    with assms(2) show ?thesis by (simp add: next_number_loop_stop)
  qed
next
  case (Cons c d)
  have "next_number_loop number \<lparr>source = pre @ (c # d) @ rest, index = length pre\<rparr> =
        next_number_loop (number @ [c])
          \<lparr>source = (pre @ [c]) @ d @ rest, index = length (pre @ [c])\<rparr>"
    using Cons.prems by (simp add: next_number_loop_step)
  also have "\<dots> = Inr ((number @ [c]) @ d,
      \<lparr>source = (pre @ [c]) @ d @ rest, index = length (pre @ [c]) + length d\<rparr>)"
    using Cons.prems by (intro Cons.IH) simp
  finally show ?case by simp
qed

lemma next_token_number_run:
  assumes "d \<noteq> []" and "list_all char_isdigit d" and "rest = [] \<or> \<not> char_isdigit (hd rest)"
  shows "next_token \<lparr>source = pre @ d @ rest, index = length pre\<rparr> =
           Inr (Some d, \<lparr>source = pre @ d @ rest, index = length pre + length d\<rparr>)"
proof -
  from assms(1,2) have "is_digit \<lparr>source = pre @ d @ rest, index = length pre\<rparr> = Inr True"
    by (cases d) (simp_all add: is_digit_cases isdigit_def)
  moreover from assms(1) have "index \<lparr>source = pre @ d @ rest, index = length pre\<rparr>
      < length (source \<lparr>source = pre @ d @ rest, index = length pre\<rparr>)" by simp
  ultimately show ?thesis
    by (simp add: next_token_number next_number_def next_number_loop_run [OF assms(2,3)])
qed

lemma next_token_symbol_at:
  assumes "[c] \<in> set ALLOWED_SYMBOLS"
  shows "next_token \<lparr>source = pre @ c # rest, index = length pre\<rparr> =
           Inr (Some [c], \<lparr>source = pre @ c # rest, index = length pre + 1\<rparr>)"
  using assms
  by (auto simp: next_token_symbol is_digit_cases is_symbol_cases isdigit_def char_isdigit_def
        ALLOWED_SYMBOLS_def)

lemma is_decimal_isdigit: "is_decimal c \<Longrightarrow> char_isdigit c"
  by (auto simp: is_decimal_def char_isdigit_def)

lemma list_all_decimal_isdigit: "list_all is_decimal d \<Longrightarrow> list_all char_isdigit d"
  by (induction d) (auto simp: is_decimal_isdigit)

lemma parse_digits:
  assumes "d \<noteq> []" and "list_all is_decimal d"
  shows "parse (Parser_init d) =
    Inr (SingleRelation (SingleTerm (SingleFactor (Integer d))),
         \<lparr>expression_string = d, lexer = \<lparr>source = d, index = length d\<rparr>, token = None\<rparr>)"
proof -
  have dg: "list_all char_isdigit d" using assms(2) by (rule list_all_decimal_isdigit)
  have 1: "next_token \<lparr>source = d, index = 0\<rparr> = Inr (Some d, \<lparr>source = d, index = length d\<rparr>)"
    using next_token_number_run [OF assms(1) dg, of "[]" "[]"] by simp
  have 2: "next_token \<lparr>source = d, index = length d\<rparr> = Inr (None, \<lparr>source = d, index = length d\<rparr>)"
    by (simp add: next_token_end)
  show ?thesis
    using assms(1) dg by (simp add: parser_steps 1 2 isdigit_def)
qed

lemma decimal_value_snoc: "decimal_value (d @ [c]) = 10 * decimal_value d + digit_value c"
  by (simp add: decimal_value_def)

lemma foldl_decimal_value:
  "foldl (\<lambda>a c. 10 * a + digit_value c) 0 d = decimal_value d"
  by (induction d rule: rev_induct) (simp_all add: decimal_value_snoc decimal_value_def)

lemma py_int_decimal:
  "d \<noteq> [] \<Longrightarrow> list_all is_decimal d \<Longrightarrow> length d \<le> int_max_str_digits \<Longrightarrow>
   py_int d = Inr (decimal_value d)"
  by (simp add: py_int_def foldl_decimal_value)

lemma py_int_too_long: "int_max_str_digits < length d \<Longrightarrow> py_int d = Inl ValueError"
  by (simp add: py_int_def)

lemma digit_char_decimal: "k < 10 \<Longrightarrow> is_decimal (digit_char k)"
  by (simp add: digit_char_def is_decimal_def del: set_simps)

lemma digit_value_digit_char: "k < 10 \<Longrightarrow> digit_value (digit_char k) = int k"
proof -
  assume "k < 10"
  then have "k \<in> {0, 1, 2, 3, 4, 5, 6, 7, 8, 9}" by auto
  then show ?thesis by (auto simp: digit_value_def digit_char_def)
qed

lemma str_nat_not_empty: "str_nat n \<noteq> []"
  by (subst str_nat.simps) simp

lemma str_nat_decimal: "list_all is_decimal (str_nat n)"
proof (induction n rule: str_nat.induct)
  case (1 n)
  show ?case
  proof (cases "n < 10")
    case True
    then show ?thesis by (subst str_nat.simps) (simp add: digit_char_decimal)
  next
    case False
    with 1 show ?thesis by (subst str_nat.simps) (simp add: digit_char_decimal)
  qed
qed

lemma decimal_value_str_nat: "decimal_value (str_nat n) = int n"
proof (induction n rule: str_nat.induct)
  case (1 n)
  show ?case
  proof (cases "n < 10")
    case True
    then have "str_nat n = [] @ [digit_char n]" by (subst str_nat.simps) simp
    with True show ?thesis
      by (simp only: decimal_value_snoc) (simp add: decimal_value_def digit_value_digit_char)
  next
    case False
    then have "str_nat n = str_nat (n div 10) @ [digit_char (n mod 10)]"
      by (subst str_nat.simps) simp
    with False 1 have "decimal_value (str_nat n) = 10 * int (n div 10) + int (n mod 10)"
      by (simp add: decimal_value_snoc digit_value_digit_char)
    also have "\<dots> = int n" by presburger
    finally show ?thesis .
  qed
qed

lemma str_nat_length: "n < 10 ^ k \<Longrightarrow> 0 < k \<Longrightarrow> length (str_nat n) \<le> k"
proof (induction n arbitrary: k rule: str_nat.induct)
  case (1 n)
  show ?case
  proof (cases "n < 10")
    case True
    with "1.prems" show ?thesis by (subst str_nat.simps) simp
  next
    case False
    from "1.prems" obtain j where k: "k = Suc j" by (cases k) auto
    with False "1.prems" have j: "0 < j" by (cases j) auto
    from "1.prems"(1) k have "n div 10 < 10 ^ j"
      by (simp add: less_mult_imp_div_less mult.commute)
    from "1.IH" [OF False this j] False k show ?thesis
      by (subst str_nat.simps) simp
  qed
qed

lemma str_nat_long: "10 ^ k \<le> n \<Longrightarrow> k < length (str_nat n)"
proof (induction k arbitrary: n)
  case 0
  show ?case by (subst str_nat.simps) simp
next
  case (Suc k)
  have "(10::nat) * 1 \<le> 10 * 10 ^ k" by (rule mult_le_mono2) simp
  with Suc.prems have large: "\<not> n < 10" unfolding power_Suc by linarith
  from Suc.prems have "10 ^ k \<le> n div 10"
    by (simp add: less_eq_div_iff_mult_less_eq mult.commute)
  from Suc.IH [OF this] large show ?case
    by (subst str_nat.simps) simp
qed

lemma evaluate_digits_value:
  assumes "d \<noteq> []" and "list_all is_decimal d"
  shows "evaluate d = py_int d"
  using assms by (simp add: evaluate_def parse_tree_def parse_digits)

lemma leading_zeros_decimal: "list_all is_decimal (replicate n (CHR ''0'') @ ''7'')"
  by (simp add: list_all_iff is_decimal_def)

lemma leading_zeros_value: "decimal_value (replicate n (CHR ''0'') @ ''7'') = 7"
proof -
  have "digits_value_rev (replicate n (CHR ''0'')) = 0"
    by (induction n) (simp_all add: digit_value_def)
  then show ?thesis by (simp add: decimal_value_def digit_value_def)
qed

lemma leading_zeros_too_long:
  assumes "int_max_str_digits \<le> n"
  shows "evaluate (replicate n (CHR ''0'') @ ''7'') = Inl ValueError"
proof -
  have "evaluate (replicate n (CHR ''0'') @ ''7'') = py_int (replicate n (CHR ''0'') @ ''7'')"
    by (rule evaluate_digits_value [OF _ leading_zeros_decimal]) simp
  also have "\<dots> = Inl ValueError"
    using assms by (intro py_int_too_long) simp
  finally show ?thesis .
qed

lemma evaluate_str_nat_long:
  assumes "10 ^ k \<le> n" and "int_max_str_digits \<le> k"
  shows "evaluate (str_nat n) = Inl ValueError"
proof -
  from str_nat_long [OF assms(1)] assms(2) have "int_max_str_digits < length (str_nat n)"
    by simp
  then have "py_int (str_nat n) = Inl ValueError" by (rule py_int_too_long)
  then show ?thesis
    by (simp add: evaluate_digits_value str_nat_not_empty str_nat_decimal)
qed

text \<open>
  C10, as the program behaves. For every non-empty string \<open>d\<close> of decimal digits,
  leading zeros or not, the parse succeeds with the tree
  \<open>SingleRelation(SingleTerm(SingleFactor(Integer(d))))\<close>. When \<open>d\<close> has no more
  characters than the limit of \<open>int\<close>, the evaluation returns the decimal value of \<open>d\<close>;
  when it has more, the evaluation ends with \<open>ValueError\<close>. \<open>007\<close> evaluates to 7.
\<close>

theorem evaluate_digits:
  assumes "d \<noteq> []" and "list_all is_decimal d"
  shows "parse_tree d = Inr (SingleRelation (SingleTerm (SingleFactor (Integer d))))
       \<and> (length d \<le> int_max_str_digits \<longrightarrow> evaluate d = Inr (decimal_value d))
       \<and> (int_max_str_digits < length d \<longrightarrow> evaluate d = Inl ValueError)"
  using assms
  by (simp add: evaluate_digits_value py_int_decimal py_int_too_long)
     (simp add: parse_tree_def parse_digits)

theorem evaluate_digits_witness:
  "parse_tree ''007'' = Inr (SingleRelation (SingleTerm (SingleFactor (Integer ''007''))))
   \<and> evaluate ''007'' = Inr 7"
proof -
  have 1: "''007'' \<noteq> []" by simp
  have 2: "list_all is_decimal ''007''" by (simp add: is_decimal_def)
  have 3: "decimal_value ''007'' = 7" by (simp add: decimal_value_def digit_value_def)
  have 4: "length ''007'' \<le> int_max_str_digits" by (simp add: int_max_str_digits_def)
  from evaluate_digits [OF 1 2] 3 4 show ?thesis by simp
qed

text \<open>
  C10 as stated fails: 4400 zeros followed by \<open>7\<close> are a run of decimal digits with
  leading zeros, and its evaluation ends with \<open>ValueError\<close> instead of the value 7.
\<close>

theorem evaluate_digits_counterexample:
  "list_all is_decimal (replicate 4400 (CHR ''0'') @ ''7'')
   \<and> decimal_value (replicate 4400 (CHR ''0'') @ ''7'') = 7
   \<and> evaluate (replicate 4400 (CHR ''0'') @ ''7'') = Inl ValueError"
proof (intro conjI)
  show "list_all is_decimal (replicate 4400 (CHR ''0'') @ ''7'')"
    by (rule leading_zeros_decimal)
  show "decimal_value (replicate 4400 (CHR ''0'') @ ''7'') = 7"
    by (rule leading_zeros_value)
  show "evaluate (replicate 4400 (CHR ''0'') @ ''7'') = Inl ValueError"
    by (rule leading_zeros_too_long) (simp add: int_max_str_digits_def)
qed

text \<open>
  C6, as the program behaves. For every integer \<open>n \<ge> 0\<close> whose decimal form has no
  more digits than the limit of \<open>int\<close>, parsing the decimal form of \<open>n\<close> and evaluating
  the tree returns \<open>n\<close>.
\<close>

theorem evaluate_str_nat:
  assumes "n < 10 ^ int_max_str_digits"
  shows "evaluate (str_nat n) = Inr (int n)"
proof -
  have "length (str_nat n) \<le> int_max_str_digits"
    using assms by (rule str_nat_length) (simp add: int_max_str_digits_def)
  then show ?thesis
    by (simp add: evaluate_digits_value str_nat_not_empty str_nat_decimal py_int_decimal
          decimal_value_str_nat)
qed

theorem evaluate_str_nat_witness: "evaluate (str_nat 2024) = Inr 2024"
proof -
  have "(2024::nat) < 10 ^ 4" by simp
  also have "(10::nat) ^ 4 \<le> 10 ^ int_max_str_digits"
    by (rule power_increasing) (simp_all add: int_max_str_digits_def)
  finally have "(2024::nat) < 10 ^ int_max_str_digits" .
  from evaluate_str_nat [OF this] show ?thesis by simp
qed

text \<open>
  C6 as stated fails: the decimal form of \<open>10 ^ 4300\<close> has 4301 digits, it parses, and
  the evaluation ends with \<open>ValueError\<close> instead of the value \<open>10 ^ 4300\<close>.
\<close>

theorem evaluate_str_nat_counterexample:
  "evaluate (str_nat (10 ^ 4300)) = Inl ValueError"
  by (rule evaluate_str_nat_long [where k = 4300])
     (rule order_refl, simp add: int_max_str_digits_def)

section \<open>The end of the input\<close>

lemma next_token_None_at_end:
  "next_token lx = Inr (None, lx') \<Longrightarrow> length (source lx') \<le> index lx'"
proof (induction lx rule: next_token.induct)
  case (1 lx)
  show ?case
  proof (cases "index lx < length (source lx)")
    case False
    with "1.prems" show ?thesis by (simp add: next_token_end)
  next
    case inb: True
    note dg = is_digit_cases [OF inb] and sy = is_symbol_cases [OF inb]
    from inb have c: "current_char lx = Inr (source lx ! index lx)"
      by (simp add: current_char_def)
    show ?thesis
    proof (cases "isdigit [source lx ! index lx]")
      case True
      with dg have "is_digit lx = Inr True" by simp
      from "1.prems" next_token_number [OF inb this] show ?thesis
        by (auto split: sum.splits)
    next
      case False
      with dg have dgF: "is_digit lx = Inr False" by simp
      show ?thesis
      proof (cases "[source lx ! index lx] \<in> set ALLOWED_SYMBOLS")
        case True
        with sy have "is_symbol lx = Inr True" by simp
        from "1.prems" next_token_symbol [OF inb dgF this] show ?thesis by simp
      next
        case False
        with sy have syF: "is_symbol lx = Inr False" by simp
        from "1.prems" have sp: "source lx ! index lx = CHR '' ''"
          by (simp add: next_token_other [OF inb dgF syF] split: if_splits)
        with "1.prems" have "next_token (lx\<lparr>index := index lx + 1\<rparr>) = Inr (None, lx')"
          by (simp add: next_token_other [OF inb dgF syF])
        from "1.IH" [OF inb dgF _ syF _ c sp this] show ?thesis by simp
      qed
    qed
  qed
qed

text \<open>
  C9. Once the input is exhausted (the index has reached the length of the source, as it
  has after any call that returned \<open>None\<close>), every call of \<open>next_token\<close> returns
  \<open>None\<close>, raises nothing and leaves the lexer as it is, however many calls follow.
\<close>

theorem next_token_at_end:
  assumes "length (source lx) \<le> index lx \<or> (\<exists>lx0. next_token lx0 = Inr (None, lx))"
  shows "next_token lx = Inr (None, lx) \<and> next_tokens n lx = Inr (replicate n None, lx)"
proof -
  from assms have e: "\<not> index lx < length (source lx)"
    by (auto dest: next_token_None_at_end)
  then have 1: "next_token lx = Inr (None, lx)" by (rule next_token_end)
  have "next_tokens n lx = Inr (replicate n None, lx)"
    by (induction n) (simp_all add: 1)
  with 1 show ?thesis by simp
qed

theorem next_token_at_end_witness:
  "next_token \<lparr>source = ''7'', index = 1\<rparr> = Inr (None, \<lparr>source = ''7'', index = 1\<rparr>)
   \<and> next_tokens 3 \<lparr>source = ''7'', index = 1\<rparr>
       = Inr ([None, None, None], \<lparr>source = ''7'', index = 1\<rparr>)"
proof -
  have h: "length (source \<lparr>source = ''7'', index = 1\<rparr>) \<le> index \<lparr>source = ''7'', index = 1\<rparr>
      \<or> (\<exists>lx0. next_token lx0 = Inr (None, \<lparr>source = ''7'', index = 1\<rparr>))"
    by simp
  from next_token_at_end [OF h, of 3] show ?thesis by (simp add: numeral_3_eq_3)
qed

section \<open>Chains of additions and subtractions\<close>

lemma chain_text_Nil: "chain_ok ods \<Longrightarrow> chain_text ods = [] \<longleftrightarrow> ods = []"
  by (cases ods) auto

lemma chain_text_start:
  "chain_ok ods \<Longrightarrow> chain_text ods = [] \<or> \<not> char_isdigit (hd (chain_text ods))"
  by (cases ods) (auto simp: chain_ok_def char_isdigit_def)

lemma parse_factor_number:
  assumes "d \<noteq> []" and "list_all is_decimal d" and "chain_ok ods"
  shows "parse_factor
           \<lparr>expression_string = es, lexer = \<lparr>source = pre @ d @ chain_text ods, index = length pre\<rparr>,
            token = tok\<rparr>
         = Inr (SingleFactor (Integer d), chain_state es (pre @ d) ods)"
proof -
  have dg: "list_all char_isdigit d" using assms(2) by (rule list_all_decimal_isdigit)
  have 1: "next_token \<lparr>source = pre @ d @ chain_text ods, index = length pre\<rparr> =
      Inr (Some d, \<lparr>source = pre @ d @ chain_text ods, index = length pre + length d\<rparr>)"
    by (rule next_token_number_run [OF assms(1) dg chain_text_start [OF assms(3)]])
  have 2: "next_token \<lparr>source = pre @ d @ chain_text ods, index = length pre + length d\<rparr> =
      Inr (token (chain_state es (pre @ d) ods), lexer (chain_state es (pre @ d) ods))"
  proof (cases ods)
    case Nil
    then show ?thesis by (simp add: next_token_end chain_state_def)
  next
    case (Cons x xs)
    obtain c e where x: "x = (c, e)" by (cases x)
    with Cons assms(3) have "[c] \<in> set ALLOWED_SYMBOLS"
      by (auto simp: chain_ok_def ALLOWED_SYMBOLS_def)
    from next_token_symbol_at [OF this, of "pre @ d" "e @ chain_text xs"] Cons x
    show ?thesis by (simp add: chain_state_def)
  qed
  have 3: "Parser_next_token
      \<lparr>expression_string = es,
       lexer = \<lparr>source = pre @ d @ chain_text ods, index = length pre + length d\<rparr>,
       token = Some d\<rparr> =
      Inr (token (chain_state es (pre @ d) ods), chain_state es (pre @ d) ods)"
    by (simp add: Parser_next_token_def 2) (simp add: chain_state_def)
  have 4: "token (chain_state es (pre @ d) ods) \<noteq> Some ''*''"
    using assms(3) by (cases ods) (auto simp: chain_state_def chain_ok_def)
  have 5: "parse_primary
      \<lparr>expression_string = es, lexer = \<lparr>source = pre @ d @ chain_text ods, index = length pre\<rparr>,
       token = tok\<rparr> =
      Inr (Integer d, \<lparr>expression_string = es,
       lexer = \<lparr>source = pre @ d @ chain_text ods, index = length pre + length d\<rparr>,
       token = Some d\<rparr>)"
    using assms(1) dg
    by (simp add: parse_primary.simps Parser_next_token_def with_state_def new_Integer_def
          isdigit_def 1)
  show ?thesis
    by (simp add: parse_factor.simps parse_factor_loop.simps with_state_def new_SingleFactor_def
          3 4 5)
qed

lemma parse_term_loop_chain:
  assumes "chain_ok ods" and "is_Term left \<or> is_Factor left" and "right \<noteq> None \<or> ods \<noteq> []"
  shows "parse_term_loop left right (token (chain_state es pre ods)) (chain_state es pre ods) =
     Inr (foldl (\<lambda>t (c, d). if c = CHR ''+'' then AddTerm t (SingleFactor (Integer d))
                              else SubTerm t (SingleFactor (Integer d))) left ods,
          chain_state es (pre @ chain_text ods) [])"
  using assms
proof (induction ods arbitrary: left right pre)
  case Nil
  then show ?case by (auto simp: parse_term_loop.simps chain_state_def)
next
  case (Cons x xs)
  obtain c d where x: "x = (c, d)" by (cases x)
  from Cons.prems(1) x have c: "c = CHR ''+'' \<or> c = CHR ''-''" and d: "d \<noteq> []" "list_all is_decimal d"
    and xs: "chain_ok xs"
    by (auto simp: chain_ok_def)
  have st: "chain_state es pre (x # xs) =
      \<lparr>expression_string = es,
       lexer = \<lparr>source = (pre @ [c]) @ d @ chain_text xs, index = length (pre @ [c])\<rparr>,
       token = Some [c]\<rparr>"
    by (simp add: chain_state_def x)
  have pf: "parse_factor (chain_state es pre (x # xs)) =
      Inr (SingleFactor (Integer d), chain_state es ((pre @ [c]) @ d) xs)"
    unfolding st by (rule parse_factor_number [OF d xs])
  let ?left' = "if c = CHR ''+'' then AddTerm left (SingleFactor (Integer d))
                else SubTerm left (SingleFactor (Integer d))"
  have rec: "parse_term_loop ?left' (Some (SingleFactor (Integer d)))
        (token (chain_state es ((pre @ [c]) @ d) xs)) (chain_state es ((pre @ [c]) @ d) xs) =
     Inr (foldl (\<lambda>t (c, d). if c = CHR ''+'' then AddTerm t (SingleFactor (Integer d))
                              else SubTerm t (SingleFactor (Integer d))) ?left' xs,
          chain_state es (((pre @ [c]) @ d) @ chain_text xs) [])"
    by (rule Cons.IH [OF xs]) simp_all
  have tok: "token (chain_state es pre (x # xs)) = Some [c]"
    by (simp add: chain_state_def x)
  have inl: "Some [c] \<in> {Some ''+'', Some ''-''}"
    using c by auto
  have new: "(if Some [c] = Some ''+'' then new_AddTerm left (SingleFactor (Integer d))
              else if Some [c] = Some ''-'' then new_SubTerm left (SingleFactor (Integer d))
              else Inr left) = Inr ?left'"
    using c Cons.prems(2) by (auto simp: new_AddTerm_def new_SubTerm_def)
  have "parse_term_loop left right (Some [c]) (chain_state es pre (x # xs)) =
      parse_term_loop ?left' (Some (SingleFactor (Integer d)))
        (token (chain_state es ((pre @ [c]) @ d) xs)) (chain_state es ((pre @ [c]) @ d) xs)"
    by (subst parse_term_loop.simps) (simp only: inl if_True pf new sum.case prod.case current_token_def)
  with rec show ?case
    unfolding tok by (simp add: x)
qed

lemma chain_fold_is_Term:
  "ods \<noteq> [] \<Longrightarrow>
   is_Term (foldl (\<lambda>t (c, d). if c = CHR ''+'' then AddTerm t (SingleFactor (Integer d))
                              else SubTerm t (SingleFactor (Integer d))) left ods)"
  by (cases ods rule: rev_cases) (auto split: prod.splits)

lemma parse_chain:
  assumes "d0 \<noteq> []" and "list_all is_decimal d0" and "chain_ok ods" and "ods \<noteq> []"
  shows "parse (Parser_init (d0 @ chain_text ods)) =
     Inr (SingleRelation (chain_tree d0 ods),
          chain_state (d0 @ chain_text ods) (d0 @ chain_text ods) [])"
proof -
  let ?s = "d0 @ chain_text ods"
  have 1: "parse_factor (Parser_init ?s) = Inr (SingleFactor (Integer d0), chain_state ?s d0 ods)"
    using parse_factor_number [OF assms(1-3), of ?s "[]" None]
    by (simp add: Parser_init_def Lexer_init_def)
  have 2: "parse_term_loop (SingleFactor (Integer d0)) None (token (chain_state ?s d0 ods))
         (chain_state ?s d0 ods) = Inr (chain_tree d0 ods, chain_state ?s ?s [])"
    unfolding chain_tree_def
    by (rule parse_term_loop_chain [OF assms(3)]) (simp_all add: assms(4))
  have 3: "parse_term (Parser_init ?s) = Inr (chain_tree d0 ods, chain_state ?s ?s [])"
    by (simp add: parse_term.simps 1 2 current_token_def)
  have 4: "is_Term (chain_tree d0 ods)"
    unfolding chain_tree_def by (rule chain_fold_is_Term [OF assms(4)])
  have 5: "token (chain_state ?s ?s []) = None" by (simp add: chain_state_def)
  show ?thesis
    by (simp add: parse.simps parse_relation.simps 3 4 5 current_token_def with_state_def
          new_SingleRelation_def)
qed

lemma calculate_chain:
  assumes "chain_ok ods" and "chain_short ods" and "calculate left = Inr v"
  shows "calculate (foldl (\<lambda>t (c, d). if c = CHR ''+'' then AddTerm t (SingleFactor (Integer d))
                              else SubTerm t (SingleFactor (Integer d))) left ods) =
         Inr (foldl (\<lambda>a (c, d). if c = CHR ''+'' then a + decimal_value d
                                  else a - decimal_value d) v ods)"
  using assms
proof (induction ods arbitrary: left v)
  case Nil
  then show ?case by simp
next
  case (Cons x xs)
  obtain c d where x: "x = (c, d)" by (cases x)
  from Cons.prems(1,2) x have d: "py_int d = Inr (decimal_value d)" and xs: "chain_ok xs"
    and sh: "chain_short xs"
    by (auto simp: chain_ok_def chain_short_def py_int_decimal)
  show ?case
    unfolding x foldl_Cons prod.case
    by (rule Cons.IH [OF xs sh]) (simp add: Cons.prems(3) d)
qed

text \<open>
  C4. The text of a chain evaluates to the left fold of its operations in the order of
  the text, when no number of the chain is longer than the limit of \<open>int\<close>, and its
  tree nests to the left; \<open>10-3-2\<close> evaluates to 5, the value of \<open>(10-3)-2\<close>.
\<close>

theorem evaluate_chain:
  assumes "d0 \<noteq> []" and "list_all is_decimal d0" and "chain_ok ods"
  shows "(length d0 \<le> int_max_str_digits \<and> chain_short ods \<longrightarrow>
            evaluate (d0 @ chain_text ods) = Inr (chain_value d0 ods))
       \<and> (ods \<noteq> [] \<longrightarrow>
            parse_tree (d0 @ chain_text ods) = Inr (SingleRelation (chain_tree d0 ods)))"
proof (cases "ods = []")
  case True
  with assms(1,2) show ?thesis
    by (simp add: evaluate_def parse_tree_def parse_digits py_int_decimal chain_value_def)
next
  case False
  have "calculate (chain_tree d0 ods) = Inr (chain_value d0 ods)"
    if "length d0 \<le> int_max_str_digits" and "chain_short ods"
    unfolding chain_tree_def chain_value_def
    by (rule calculate_chain [OF assms(3) that(2)]) (simp add: py_int_decimal assms(1,2) that(1))
  with False show ?thesis
    by (simp add: evaluate_def parse_tree_def parse_chain [OF assms False])
qed

theorem evaluate_chain_witness:
  "evaluate ''10-3-2'' = Inr 5
   \<and> parse_tree ''10-3-2'' =
       Inr (SingleRelation
              (SubTerm (SubTerm (SingleFactor (Integer ''10'')) (SingleFactor (Integer ''3'')))
                       (SingleFactor (Integer ''2''))))"
proof -
  have 1: "''10'' \<noteq> []" by simp
  have 2: "list_all is_decimal ''10''" by (simp add: is_decimal_def)
  have 3: "chain_ok [(CHR ''-'', ''3''), (CHR ''-'', ''2'')]"
    by (simp add: chain_ok_def is_decimal_def)
  have 4: "chain_value ''10'' [(CHR ''-'', ''3''), (CHR ''-'', ''2'')] = 5"
    by (simp add: chain_value_def decimal_value_def digit_value_def)
  have 5: "length ''10'' \<le> int_max_str_digits
      \<and> chain_short [(CHR ''-'', ''3''), (CHR ''-'', ''2'')]"
    by (simp add: chain_short_def int_max_str_digits_def)
  from evaluate_chain [OF 1 2 3] 4 5 show ?thesis
    by (simp add: chain_tree_def)
qed

section \<open>Precedence\<close>

lemma next_token_number_in:
  assumes "d \<noteq> []" and "list_all is_decimal d" and "rest = [] \<or> \<not> char_isdigit (hd rest)"
    and "src = pre @ d @ rest" and "i = length pre" and "j = i + length d"
  shows "next_token \<lparr>source = src, index = i\<rparr> = Inr (Some d, \<lparr>source = src, index = j\<rparr>)"
  unfolding assms(4-6)
  by (rule next_token_number_run [OF assms(1) list_all_decimal_isdigit [OF assms(2)] assms(3)])

lemma next_token_symbol_in:
  assumes "[c] \<in> set ALLOWED_SYMBOLS" and "src = pre @ c # rest" and "i = length pre"
    and "j = i + 1"
  shows "next_token \<lparr>source = src, index = i\<rparr> = Inr (Some [c], \<lparr>source = src, index = j\<rparr>)"
  unfolding assms(2-4) by (rule next_token_symbol_at [OF assms(1)])

lemma next_token_end_in:
  assumes "i = length src"
  shows "next_token \<lparr>source = src, index = i\<rparr> = Inr (None, \<lparr>source = src, index = i\<rparr>)"
  by (simp add: next_token_end assms)

lemma short_number_isdigit: "short_number d \<Longrightarrow> isdigit d"
  by (simp add: short_number_def isdigit_def list_all_decimal_isdigit)

lemma short_number_py_int: "short_number d \<Longrightarrow> py_int d = Inr (decimal_value d)"
  by (simp add: short_number_def py_int_decimal)

lemma plus_times:
  assumes "short_number a" and "short_number b" and "short_number c"
  shows "evaluate (a @ ''+'' @ b @ ''*'' @ c) =
           Inr (decimal_value a + decimal_value b * decimal_value c)"
proof -
  define s where "s = a @ ''+'' @ b @ ''*'' @ c"
  define i1 where "i1 = length a"
  define i2 where "i2 = i1 + 1"
  define i3 where "i3 = i2 + length b"
  define i4 where "i4 = i3 + 1"
  define i5 where "i5 = i4 + length c"
  from assms have ne: "a \<noteq> []" "b \<noteq> []" "c \<noteq> []"
    and dec: "list_all is_decimal a" "list_all is_decimal b" "list_all is_decimal c"
    by (simp_all add: short_number_def)
  have sym: "''+'' \<in> set ALLOWED_SYMBOLS" "''*'' \<in> set ALLOWED_SYMBOLS"
    by (simp_all add: ALLOWED_SYMBOLS_def)
  have t0: "next_token \<lparr>source = s, index = 0\<rparr> = Inr (Some a, \<lparr>source = s, index = i1\<rparr>)"
    by (rule next_token_number_in [OF ne(1) dec(1), where pre = "[]" and rest = "''+'' @ b @ ''*'' @ c"])
       (simp_all add: s_def i1_def char_isdigit_def)
  have t1: "next_token \<lparr>source = s, index = i1\<rparr> = Inr (Some ''+'', \<lparr>source = s, index = i2\<rparr>)"
    by (rule next_token_symbol_in [OF sym(1), where pre = a and rest = "b @ ''*'' @ c"])
       (simp_all add: s_def i1_def i2_def)
  have t2: "next_token \<lparr>source = s, index = i2\<rparr> = Inr (Some b, \<lparr>source = s, index = i3\<rparr>)"
    by (rule next_token_number_in [OF ne(2) dec(2), where pre = "a @ ''+''" and rest = "''*'' @ c"])
       (simp_all add: s_def i1_def i2_def i3_def char_isdigit_def)
  have t3: "next_token \<lparr>source = s, index = i3\<rparr> = Inr (Some ''*'', \<lparr>source = s, index = i4\<rparr>)"
    by (rule next_token_symbol_in [OF sym(2), where pre = "a @ ''+'' @ b" and rest = c])
       (simp_all add: s_def i1_def i2_def i3_def i4_def)
  have t4: "next_token \<lparr>source = s, index = i4\<rparr> = Inr (Some c, \<lparr>source = s, index = i5\<rparr>)"
    by (rule next_token_number_in [OF ne(3) dec(3), where pre = "a @ ''+'' @ b @ ''*''" and rest = "[]"])
       (simp_all add: s_def i1_def i2_def i3_def i4_def i5_def)
  have t5: "next_token \<lparr>source = s, index = i5\<rparr> = Inr (None, \<lparr>source = s, index = i5\<rparr>)"
    by (rule next_token_end_in) (simp add: s_def i1_def i2_def i3_def i4_def i5_def)
  have "parse_tree s =
      Inr (SingleRelation (AddTerm (SingleFactor (Integer a)) (Factor (Integer b) (Integer c))))"
    by (simp add: parse_tree_def parser_steps t0 t1 t2 t3 t4 t5 assms short_number_isdigit)
  then show ?thesis
    unfolding s_def [symmetric]
    by (simp add: evaluate_def assms short_number_py_int)
qed


lemma times_plus:
  assumes "short_number a" and "short_number b" and "short_number c"
  shows "evaluate (a @ ''*'' @ b @ ''+'' @ c) =
           Inr (decimal_value a * decimal_value b + decimal_value c)"
proof -
  define s where "s = a @ ''*'' @ b @ ''+'' @ c"
  define i1 where "i1 = length a"
  define i2 where "i2 = i1 + 1"
  define i3 where "i3 = i2 + length b"
  define i4 where "i4 = i3 + 1"
  define i5 where "i5 = i4 + length c"
  from assms have ne: "a \<noteq> []" "b \<noteq> []" "c \<noteq> []"
    and dec: "list_all is_decimal a" "list_all is_decimal b" "list_all is_decimal c"
    by (simp_all add: short_number_def)
  have sym: "''+'' \<in> set ALLOWED_SYMBOLS" "''*'' \<in> set ALLOWED_SYMBOLS"
    by (simp_all add: ALLOWED_SYMBOLS_def)
  have t0: "next_token \<lparr>source = s, index = 0\<rparr> = Inr (Some a, \<lparr>source = s, index = i1\<rparr>)"
    by (rule next_token_number_in [OF ne(1) dec(1), where pre = "[]" and rest = "''*'' @ b @ ''+'' @ c"])
       (simp_all add: s_def i1_def char_isdigit_def)
  have t1: "next_token \<lparr>source = s, index = i1\<rparr> = Inr (Some ''*'', \<lparr>source = s, index = i2\<rparr>)"
    by (rule next_token_symbol_in [OF sym(2), where pre = a and rest = "b @ ''+'' @ c"])
       (simp_all add: s_def i1_def i2_def)
  have t2: "next_token \<lparr>source = s, index = i2\<rparr> = Inr (Some b, \<lparr>source = s, index = i3\<rparr>)"
    by (rule next_token_number_in [OF ne(2) dec(2), where pre = "a @ ''*''" and rest = "''+'' @ c"])
       (simp_all add: s_def i1_def i2_def i3_def char_isdigit_def)
  have t3: "next_token \<lparr>source = s, index = i3\<rparr> = Inr (Some ''+'', \<lparr>source = s, index = i4\<rparr>)"
    by (rule next_token_symbol_in [OF sym(1), where pre = "a @ ''*'' @ b" and rest = c])
       (simp_all add: s_def i1_def i2_def i3_def i4_def)
  have t4: "next_token \<lparr>source = s, index = i4\<rparr> = Inr (Some c, \<lparr>source = s, index = i5\<rparr>)"
    by (rule next_token_number_in [OF ne(3) dec(3), where pre = "a @ ''*'' @ b @ ''+''" and rest = "[]"])
       (simp_all add: s_def i1_def i2_def i3_def i4_def i5_def)
  have t5: "next_token \<lparr>source = s, index = i5\<rparr> = Inr (None, \<lparr>source = s, index = i5\<rparr>)"
    by (rule next_token_end_in) (simp add: s_def i1_def i2_def i3_def i4_def i5_def)
  have "parse_tree s =
      Inr (SingleRelation (AddTerm (Factor (Integer a) (Integer b)) (SingleFactor (Integer c))))"
    by (simp add: parse_tree_def parser_steps t0 t1 t2 t3 t4 t5 assms short_number_isdigit)
  then show ?thesis
    unfolding s_def [symmetric]
    by (simp add: evaluate_def assms short_number_py_int)
qed

lemma parenthesized_plus_times:
  assumes "short_number a" and "short_number b" and "short_number c"
  shows "evaluate (''('' @ a @ ''+'' @ b @ '')*'' @ c) =
           Inr ((decimal_value a + decimal_value b) * decimal_value c)"
proof -
  define s where "s = ''('' @ a @ ''+'' @ b @ '')*'' @ c"
  define i1 where "i1 = Suc 0"
  define i2 where "i2 = i1 + length a"
  define i3 where "i3 = i2 + 1"
  define i4 where "i4 = i3 + length b"
  define i5 where "i5 = i4 + 1"
  define i6 where "i6 = i5 + 1"
  define i7 where "i7 = i6 + length c"
  from assms have ne: "a \<noteq> []" "b \<noteq> []" "c \<noteq> []"
    and dec: "list_all is_decimal a" "list_all is_decimal b" "list_all is_decimal c"
    by (simp_all add: short_number_def)
  have sym: "''+'' \<in> set ALLOWED_SYMBOLS" "''*'' \<in> set ALLOWED_SYMBOLS"
    "''('' \<in> set ALLOWED_SYMBOLS" "'')'' \<in> set ALLOWED_SYMBOLS"
    by (simp_all add: ALLOWED_SYMBOLS_def)
  have t0: "next_token \<lparr>source = s, index = 0\<rparr> = Inr (Some ''('', \<lparr>source = s, index = i1\<rparr>)"
    by (rule next_token_symbol_in [OF sym(3), where pre = "[]" and rest = "a @ ''+'' @ b @ '')*'' @ c"])
       (simp_all add: s_def i1_def)
  have t1: "next_token \<lparr>source = s, index = i1\<rparr> = Inr (Some a, \<lparr>source = s, index = i2\<rparr>)"
    by (rule next_token_number_in [OF ne(1) dec(1), where pre = "''(''" and rest = "''+'' @ b @ '')*'' @ c"])
       (simp_all add: s_def i1_def i2_def char_isdigit_def)
  have t2: "next_token \<lparr>source = s, index = i2\<rparr> = Inr (Some ''+'', \<lparr>source = s, index = i3\<rparr>)"
    by (rule next_token_symbol_in [OF sym(1), where pre = "''('' @ a" and rest = "b @ '')*'' @ c"])
       (simp_all add: s_def i1_def i2_def i3_def)
  have t3: "next_token \<lparr>source = s, index = i3\<rparr> = Inr (Some b, \<lparr>source = s, index = i4\<rparr>)"
    by (rule next_token_number_in [OF ne(2) dec(2), where pre = "''('' @ a @ ''+''" and rest = "'')*'' @ c"])
       (simp_all add: s_def i1_def i2_def i3_def i4_def char_isdigit_def)
  have t4: "next_token \<lparr>source = s, index = i4\<rparr> = Inr (Some '')'', \<lparr>source = s, index = i5\<rparr>)"
    by (rule next_token_symbol_in [OF sym(4), where pre = "''('' @ a @ ''+'' @ b" and rest = "''*'' @ c"])
       (simp_all add: s_def i1_def i2_def i3_def i4_def i5_def)
  have t5: "next_token \<lparr>source = s, index = i5\<rparr> = Inr (Some ''*'', \<lparr>source = s, index = i6\<rparr>)"
    by (rule next_token_symbol_in [OF sym(2), where pre = "''('' @ a @ ''+'' @ b @ '')''" and rest = c])
       (simp_all add: s_def i1_def i2_def i3_def i4_def i5_def i6_def)
  have t6: "next_token \<lparr>source = s, index = i6\<rparr> = Inr (Some c, \<lparr>source = s, index = i7\<rparr>)"
    by (rule next_token_number_in [OF ne(3) dec(3), where pre = "''('' @ a @ ''+'' @ b @ '')*''" and rest = "[]"])
       (simp_all add: s_def i1_def i2_def i3_def i4_def i5_def i6_def i7_def)
  have nd: "\<not> isdigit ''(''" by (simp add: isdigit_def char_isdigit_def)
  have t7: "next_token \<lparr>source = s, index = i7\<rparr> = Inr (None, \<lparr>source = s, index = i7\<rparr>)"
    by (rule next_token_end_in) (simp add: s_def i1_def i2_def i3_def i4_def i5_def i6_def i7_def)
  have "parse_tree s =
      Inr (SingleRelation (SingleTerm (Factor
             (Parenthesized (SingleRelation
                (AddTerm (SingleFactor (Integer a)) (SingleFactor (Integer b)))))
             (Integer c))))"
    by (simp add: parse_tree_def parser_steps t0 t1 t2 t3 t4 t5 t6 t7 assms short_number_isdigit nd)
  then show ?thesis
    unfolding s_def [symmetric]
    by (simp add: evaluate_def assms short_number_py_int)
qed

text \<open>
  C3. Multiplication binds tighter than addition on either side of it, and parentheses
  override it: for all numbers \<open>a\<close>, \<open>b\<close> and \<open>c\<close> that \<open>int\<close> converts, \<open>a+b*c\<close>
  evaluates to \<open>a + (b * c)\<close>, \<open>a*b+c\<close> to \<open>(a * b) + c\<close> and \<open>(a+b)*c\<close> to
  \<open>(a + b) * c\<close>; \<open>2+3*4\<close> evaluates to 14 and \<open>(2+3)*4\<close> to 20.
\<close>

theorem evaluate_precedence:
  assumes "short_number a" and "short_number b" and "short_number c"
  shows "evaluate (a @ ''+'' @ b @ ''*'' @ c) =
           Inr (decimal_value a + decimal_value b * decimal_value c)
       \<and> evaluate (a @ ''*'' @ b @ ''+'' @ c) =
           Inr (decimal_value a * decimal_value b + decimal_value c)
       \<and> evaluate (''('' @ a @ ''+'' @ b @ '')*'' @ c) =
           Inr ((decimal_value a + decimal_value b) * decimal_value c)"
  using plus_times [OF assms] times_plus [OF assms] parenthesized_plus_times [OF assms]
  by simp

theorem evaluate_precedence_witness:
  "evaluate ''2+3*4'' = Inr 14 \<and> evaluate ''2*3+4'' = Inr 10 \<and> evaluate ''(2+3)*4'' = Inr 20"
proof -
  have n: "short_number ''2''" "short_number ''3''" "short_number ''4''"
    by (simp_all add: short_number_def is_decimal_def int_max_str_digits_def)
  have v: "decimal_value ''2'' = 2" "decimal_value ''3'' = 3" "decimal_value ''4'' = 4"
    by (simp_all add: decimal_value_def digit_value_def)
  from evaluate_precedence [OF n] v show ?thesis by simp
qed

section \<open>Input after a complete expression\<close>

























end
